theory Spec2Isabelle
  imports Main "HOL-Library.AList"
begin

section \<open>Data model\<close>

text \<open>
  The serializers of \<^verbatim>\<open>cinema/serializers.py\<close> work on four kinds of values: the
  model instances \<^verbatim>\<open>CinemaHall\<close> and \<^verbatim>\<open>MovieSession\<close>, the rows of the
  \<^verbatim>\<open>Ticket\<close> and \<^verbatim>\<open>Order\<close> tables, the deserialised attributes of one ticket
  (\<^verbatim>\<open>attrs\<close>, \<^verbatim>\<open>ticket_data\<close>) and the raw request payload
  (\<^verbatim>\<open>self.initial_data\<close>). Python integers are unbounded, hence \<open>int\<close>.
\<close>

record cinema_hall =
  rows :: int
  seats_in_row :: int

text \<open>
  Modelled from the spec: the property \<^verbatim>\<open>CinemaHall.capacity\<close> is declared in
  \<^verbatim>\<open>cinema/models.py\<close>, which is not among the sources; the spec gives it as
  \<open>rows \<times> seatsInRow\<close>.
\<close>

definition capacity :: "cinema_hall \<Rightarrow> int" where
  "capacity hall = rows hall * seats_in_row hall"

record movie_session =
  ms_id :: int
  cinema_hall :: cinema_hall

text \<open>One deserialised ticket: the dictionary with the keys \<^verbatim>\<open>row\<close>, \<^verbatim>\<open>seat\<close> and
  \<^verbatim>\<open>movie_session\<close> (the session object itself).\<close>

record ticket_attrs =
  row :: int
  seat :: int
  movie_session :: movie_session

text \<open>One row of the \<^verbatim>\<open>Ticket\<close> table and one row of the \<^verbatim>\<open>Order\<close> table.
  The creation time of an order plays no part in what follows and is left out.\<close>

record ticket =
  t_order_id :: nat
  t_row :: int
  t_seat :: int
  t_movie_session_id :: int

record order =
  o_id :: nat
  o_user :: nat

record store =
  Ticket_objects :: "ticket list"
  Order_objects :: "order list"

text \<open>
  One entry of the raw payload \<^verbatim>\<open>initial_data["tickets"]\<close>, given by what the two
  readers of the program make of it.
  \<^item> The order validator calls \<^verbatim>\<open>int(...)\<close> on the values under the three keys
    (lines 233-235): \<open>p_movie_session\<close>, \<open>p_row\<close> and \<open>p_seat\<close> are \<open>None\<close> when the key is
    absent or \<^verbatim>\<open>int(...)\<close> raises \<^verbatim>\<open>TypeError\<close> or \<^verbatim>\<open>ValueError\<close>, and
    \<open>Some n\<close> when it returns \<open>n\<close>.
  \<^item> The declared fields of \<^verbatim>\<open>TicketCreateSerializer\<close> (lines 169-175: the integer
    fields \<^verbatim>\<open>row\<close> and \<^verbatim>\<open>seat\<close> of the model, and the primary-key field
    \<^verbatim>\<open>movie_session\<close> over \<^verbatim>\<open>MovieSession.objects.all()\<close>) deserialise the entry:
    \<open>p_fields\<close> is \<open>None\<close> when one of them rejects its value (not an integer, no such
    session) and the attributes otherwise.
  The two readers need not agree: the string \<^verbatim>\<open>"2.0"\<close> is an integer for the field and
  a \<^verbatim>\<open>ValueError\<close> for \<^verbatim>\<open>int(...)\<close>.
\<close>

record ticket_payload =
  p_movie_session :: "int option"
  p_row :: "int option"
  p_seat :: "int option"
  p_fields :: "ticket_attrs option"

text \<open>A requested seat as the error payloads list it: session, row, seat.\<close>

type_synonym seat_key = "int \<times> int \<times> int"

text \<open>
  Every \<^verbatim>\<open>raise\<close> of the source is a constructor:
  \<^item> \<open>Empty\<close>: the tickets list is missing or empty (lines 219-227);
  \<^item> \<open>Malformed\<close>: a ticket without integer row, seat and session (lines 236-244);
  \<^item> \<open>DuplicateInBatch\<close>: \<^verbatim>\<open>{"tickets": {"duplicates": [...]}}\<close> (lines 255-258);
  \<^item> \<open>Taken\<close>: \<^verbatim>\<open>{"tickets": {"taken": [...]}}\<close> (lines 277-280);
  \<^item> \<open>OutOfBounds\<close>: the dictionary of field errors of one ticket (line 195), in
    insertion order;
  \<^item> \<open>ReturnedNone\<close>: the order validator leaves its loop without a
    \<^verbatim>\<open>return\<close> and so returns \<^verbatim>\<open>None\<close> instead of the attributes;
  \<^item> \<open>IntegrityError\<close>: the database refuses an insert.
  Two more come from the framework that runs the nested field \<^verbatim>\<open>tickets\<close> (line 210):
  \<^item> \<open>InvalidField\<close>: a declared field of a ticket rejects its value;
  \<^item> \<open>InvalidTickets\<close>: the list of the errors of the tickets, one entry per ticket,
    \<open>None\<close> for a ticket without error.
\<close>

datatype error =
    Empty
  | Malformed
  | DuplicateInBatch "seat_key list"
  | Taken "seat_key list"
  | OutOfBounds "(string \<times> string) list"
  | ReturnedNone
  | IntegrityError
  | InvalidField
  | InvalidTickets "error option list"

section \<open>Rendering an integer in an f-string\<close>

definition digit_char :: "nat \<Rightarrow> char" where
  "digit_char d = ''0123456789'' ! d"

function str_nat :: "nat \<Rightarrow> string" where
  "str_nat n = (if n < 10 then [digit_char n] else str_nat (n div 10) @ [digit_char (n mod 10)])"
  by pat_completeness auto
termination
  by (relation "measure id") auto

declare str_nat.simps [simp del]

definition str_int :: "int \<Rightarrow> string" where
  "str_int i = (if i < 0 then CHR ''-'' # str_nat (nat (- i)) else str_nat (nat i))"

section \<open>Hall geometry: \<^verbatim>\<open>TicketCreateSerializer.validate\<close>\<close>

definition row_message :: "cinema_hall \<Rightarrow> string" where
  "row_message hall = ''Row must be within [1..'' @ str_int (rows hall) @ ''] for this cinema hall.''"

definition seat_message :: "cinema_hall \<Rightarrow> string" where
  "seat_message hall =
     ''Seat must be within [1..'' @ str_int (seats_in_row hall) @ ''] for this cinema hall.''"

definition TicketCreateSerializer_validate :: "ticket_attrs \<Rightarrow> error + ticket_attrs" where
  "TicketCreateSerializer_validate attrs =
     (let hall = cinema_hall (movie_session attrs);
          r = row attrs;
          st = seat attrs;
          errors0 = [];
          errors1 = (if r < 1 \<or> r > rows hall
                     then AList.update ''row'' (row_message hall) errors0 else errors0);
          errors2 = (if st < 1 \<or> st > seats_in_row hall
                     then AList.update ''seat'' (seat_message hall) errors1 else errors1)
      in if errors2 \<noteq> [] then Inl (OutOfBounds errors2) else Inr attrs)"

text \<open>
  The nested field \<^verbatim>\<open>tickets = TicketCreateSerializer(many=True, write_only=True)\<close>
  (line 210). Before the order validator is called, the framework runs the ticket
  serializer on every entry of the list: its declared fields first, then, when they accept
  the entry, \<^verbatim>\<open>TicketCreateSerializer.validate\<close> on the attributes. The errors of all
  entries are collected; when there is one, the request is rejected with the list of them,
  otherwise the list of attributes is the validated data of the field.
\<close>

definition TicketCreateSerializer_run_validation :: "ticket_payload \<Rightarrow> error + ticket_attrs" where
  "TicketCreateSerializer_run_validation ticket =
     (case p_fields ticket of
        None \<Rightarrow> Inl InvalidField
      | Some attrs \<Rightarrow> TicketCreateSerializer_validate attrs)"

definition error_of :: "error + ticket_attrs \<Rightarrow> error option" where
  "error_of r = (case r of Inl e \<Rightarrow> Some e | Inr attrs \<Rightarrow> None)"

definition tickets_field :: "ticket_payload list \<Rightarrow> error + ticket_attrs list" where
  "tickets_field tickets_payload =
     (let results = map TicketCreateSerializer_run_validation tickets_payload
      in if list_ex isl results then Inl (InvalidTickets (map error_of results))
         else Inr (map projr results))"

section \<open>Session availability: \<^verbatim>\<open>get_tickets_available\<close>\<close>

text \<open>\<^verbatim>\<open>Ticket.objects.filter(movie_session=obj).count()\<close>\<close>

definition Ticket_count :: "store \<Rightarrow> movie_session \<Rightarrow> nat" where
  "Ticket_count s obj = length [t \<leftarrow> Ticket_objects s. t_movie_session_id t = ms_id obj]"

definition get_tickets_available :: "store \<Rightarrow> movie_session \<Rightarrow> int" where
  "get_tickets_available s obj =
     (let total_capacity = capacity (cinema_hall obj);
          taken = int (Ticket_count s obj)
      in max (total_capacity - taken) 0)"

section \<open>Reservation validator: \<^verbatim>\<open>OrderCreateSerializer.validate\<close>\<close>

text \<open>
  The dictionary \<^verbatim>\<open>by_session\<close> maps a session id to the set of \<open>(row, seat)\<close> pairs
  seen for it. A Python dictionary iterates in insertion order, so it is an association
  list in which a new key goes to the end and an old key keeps its place
  (\<^const>\<open>AList.update\<close>). Each set is a list without repetition, in insertion order;
  Python iterates a set in hash order, so the theorems below speak of the elements of an
  error list, never of their order.
\<close>

type_synonym by_session = "(int \<times> (int \<times> int) list) list"

text \<open>\<^verbatim>\<open>seen = by_session.setdefault(ms_id, set())\<close>: the dictionary afterwards, and the
  set found or made.\<close>

definition setdefault :: "by_session \<Rightarrow> int \<Rightarrow> by_session \<times> (int \<times> int) list" where
  "setdefault d k = (case map_of d k of Some v \<Rightarrow> (d, v) | None \<Rightarrow> (d @ [(k, [])], []))"

text \<open>
  The first loop (lines 231-253). The three \<^verbatim>\<open>int(...)\<close> calls run in the order
  session, row, seat, and any of them failing raises the same error at once, whatever
  was collected before.
\<close>

fun collect ::
  "ticket_payload list \<Rightarrow> by_session \<Rightarrow> seat_key list \<Rightarrow> error + (by_session \<times> seat_key list)"
where
  "collect [] by_session duplicates = Inr (by_session, duplicates)"
| "collect (ticket # rest) by_session duplicates =
     (case p_movie_session ticket of
        None \<Rightarrow> Inl Malformed
      | Some ms \<Rightarrow>
     (case p_row ticket of
        None \<Rightarrow> Inl Malformed
      | Some r \<Rightarrow>
     (case p_seat ticket of
        None \<Rightarrow> Inl Malformed
      | Some st \<Rightarrow>
          (let key = (r, st);
               (by_session1, seen) = setdefault by_session ms
           in if key \<in> set seen
              then collect rest by_session1 (duplicates @ [(ms, r, st)])
              else collect rest (AList.update ms (seen @ [key]) by_session1) duplicates))))"

text \<open>The statements sent to the Ticket and Order tables, in the order they are sent.\<close>

datatype query =
    Select_tickets int "int list"
  | Insert_order nat
  | Insert_tickets "ticket list"

text \<open>\<^verbatim>\<open>Ticket.objects.filter(movie_session_id=ms_id, row__in=rows).values_list("row", "seat")\<close>\<close>

definition Ticket_filter :: "store \<Rightarrow> int \<Rightarrow> int list \<Rightarrow> (int \<times> int) list" where
  "Ticket_filter s ms rs =
     map (\<lambda>t. (t_row t, t_seat t))
       [t \<leftarrow> Ticket_objects s. t_movie_session_id t = ms \<and> t_row t \<in> set rs]"

text \<open>
  The second loop (lines 260-282) over \<^verbatim>\<open>by_session.items()\<close>. Both the
  \<^verbatim>\<open>raise\<close> of line 278 and the \<^verbatim>\<open>return attrs\<close> of line 282 stand inside the
  loop body, so the first iteration ends the function: the groups after the first
  (\<open>later\<close>) are never visited. With no group at all the loop body never runs and the
  function returns \<^verbatim>\<open>None\<close>.
\<close>

fun check_taken ::
  "store \<Rightarrow> by_session \<Rightarrow> seat_key list \<Rightarrow> ticket_attrs list
     \<Rightarrow> (error + ticket_attrs list) \<times> query list"
where
  "check_taken s [] conflicts attrs = (Inl ReturnedNone, [])"
| "check_taken s ((ms, requested) # later) conflicts attrs =
     (let wanted_rows = map fst requested;
          existing = Ticket_filter s ms wanted_rows;
          conflicts1 = conflicts @ map (\<lambda>pair. (ms, fst pair, snd pair))
                                     [pair \<leftarrow> requested. pair \<in> set existing]
      in (if conflicts1 \<noteq> [] then Inl (Taken conflicts1) else Inr attrs,
          [Select_tickets ms wanted_rows]))"

text \<open>
  The validator reads the raw payload (\<^verbatim>\<open>self.initial_data.get("tickets", [])\<close>, here
  \<open>None\<close> when the key is absent) and returns the deserialised attributes it was given.
  The result comes with the queries the call has sent.
\<close>

definition OrderCreateSerializer_validate ::
  "store \<Rightarrow> ticket_payload list option \<Rightarrow> ticket_attrs list
     \<Rightarrow> (error + ticket_attrs list) \<times> query list"
where
  "OrderCreateSerializer_validate s initial_tickets attrs =
     (let tickets_payload = (case initial_tickets of None \<Rightarrow> [] | Some ts \<Rightarrow> ts)
      in if tickets_payload = [] then (Inl Empty, [])
         else (case collect tickets_payload [] [] of
                 Inl e \<Rightarrow> (Inl e, [])
               | Inr (by_session, duplicates) \<Rightarrow>
                   if duplicates \<noteq> [] then (Inl (DuplicateInBatch duplicates), [])
                   else check_taken s by_session [] attrs))"

section \<open>Order commit: \<^verbatim>\<open>OrderCreateSerializer.create\<close>\<close>

definition seat_of :: "ticket \<Rightarrow> seat_key" where
  "seat_of t = (t_movie_session_id t, t_row t, t_seat t)"

text \<open>
  Modelled from the spec: the \<^verbatim>\<open>Ticket\<close> model, and with it any constraint of the
  Tickets table, is declared in \<^verbatim>\<open>cinema/models.py\<close>, which is not among the sources.
  The spec gives the table a uniqueness constraint on \<open>(movieSessionId, row, seat)\<close>. The
  flag \<open>unique_constraint\<close> says whether the table has it; with it, the insert of a row
  whose seat is already in the table fails with an integrity error.
\<close>

fun bulk_create :: "bool \<Rightarrow> ticket list \<Rightarrow> ticket list \<Rightarrow> error + ticket list" where
  "bulk_create unique_constraint table [] = Inr table"
| "bulk_create unique_constraint table (t # ts) =
     (if unique_constraint \<and> seat_of t \<in> seat_of ` set table then Inl IntegrityError
      else bulk_create unique_constraint (table @ [t]) ts)"

text \<open>The primary key the database gives a new order: above every key in the table.\<close>

definition next_order_id :: "store \<Rightarrow> nat" where
  "next_order_id s = Suc (fold max (map o_id (Order_objects s)) 0)"

definition new_ticket :: "order \<Rightarrow> ticket_attrs \<Rightarrow> ticket" where
  "new_ticket order ticket_data =
     \<lparr>t_order_id = o_id order, t_row = row ticket_data, t_seat = seat ticket_data,
      t_movie_session_id = ms_id (movie_session ticket_data)\<rparr>"

text \<open>
  Lines 284-300. Order and tickets are written inside \<^verbatim>\<open>transaction.atomic()\<close>: when
  the insert of the tickets raises, the block is rolled back and the store is the one
  before the call.
\<close>

definition OrderCreateSerializer_create ::
  "bool \<Rightarrow> store \<Rightarrow> nat \<Rightarrow> ticket_attrs list \<Rightarrow> (error + order) \<times> store \<times> query list"
where
  "OrderCreateSerializer_create unique_constraint s user tickets_data =
     (let order = \<lparr>o_id = next_order_id s, o_user = user\<rparr>;
          new_rows = map (new_ticket order) tickets_data;
          sent = [Insert_order user, Insert_tickets new_rows]
      in case bulk_create unique_constraint (Ticket_objects s) new_rows of
           Inl e \<Rightarrow> (Inl e, s, sent)
         | Inr table \<Rightarrow>
             (Inr order,
              \<lparr>Ticket_objects = table, Order_objects = Order_objects s @ [order]\<rparr>,
              sent))"

section \<open>The booking operation\<close>

text \<open>
  \<open>createOrder\<close> is the create action of \<^verbatim>\<open>OrderViewSet\<close> (the framework's
  \<^verbatim>\<open>CreateModelMixin\<close> with \<^verbatim>\<open>OrderCreateSerializer\<close>) on the raw tickets of a
  request. \<open>is_valid\<close> runs the nested tickets field and then, on its attributes, the order
  validator, which reads the raw payload again; \<open>createOrder\<close> creates the order when
  \<open>is_valid\<close> has returned the validated data. A request without the key
  \<^verbatim>\<open>tickets\<close> does not reach this point.
\<close>

definition is_valid ::
  "store \<Rightarrow> ticket_payload list \<Rightarrow> (error + ticket_attrs list) \<times> query list"
where
  "is_valid s tickets_payload =
     (case tickets_field tickets_payload of
        Inl e \<Rightarrow> (Inl e, [])
      | Inr attrs \<Rightarrow> OrderCreateSerializer_validate s (Some tickets_payload) attrs)"

definition createOrder ::
  "bool \<Rightarrow> store \<Rightarrow> nat \<Rightarrow> ticket_payload list \<Rightarrow> (error + order) \<times> store \<times> query list"
where
  "createOrder unique_constraint s user tickets_payload =
     (case is_valid s tickets_payload of
        (Inl e, sent) \<Rightarrow> (Inl e, s, sent)
      | (Inr validated_data, sent) \<Rightarrow>
          (case OrderCreateSerializer_create unique_constraint s user validated_data of
             (result, s', sent') \<Rightarrow> (result, s', sent @ sent')))"

text \<open>The raw entry that carries the integers of a deserialised ticket: both readers
  give back that ticket.\<close>

definition payload_of :: "ticket_attrs \<Rightarrow> ticket_payload" where
  "payload_of ticket_data =
     \<lparr>p_movie_session = Some (ms_id (movie_session ticket_data)),
      p_row = Some (row ticket_data), p_seat = Some (seat ticket_data),
      p_fields = Some ticket_data\<rparr>"

text \<open>The seat that the order validator reads in a raw entry, when all three
  \<^verbatim>\<open>int(...)\<close> calls return.\<close>

definition int_triple :: "ticket_payload \<Rightarrow> seat_key option" where
  "int_triple ticket =
     (case p_movie_session ticket of
        None \<Rightarrow> None
      | Some ms \<Rightarrow>
     (case p_row ticket of
        None \<Rightarrow> None
      | Some r \<Rightarrow>
     (case p_seat ticket of
        None \<Rightarrow> None
      | Some st \<Rightarrow> Some (ms, r, st))))"

text \<open>The requested seat of a deserialised ticket, and the uniqueness invariant of the
  Tickets table.\<close>

definition requested_seat :: "ticket_attrs \<Rightarrow> seat_key" where
  "requested_seat ticket_data =
     (ms_id (movie_session ticket_data), row ticket_data, seat ticket_data)"

definition unique_seats :: "store \<Rightarrow> bool" where
  "unique_seats s = distinct (map seat_of (Ticket_objects s))"

text \<open>The persisted states: any store without a doubly sold seat, and every store that a
  \<open>createOrder\<close> call leaves behind, on a Tickets table with the uniqueness constraint.\<close>

inductive reachable :: "store \<Rightarrow> bool" where
  initial: "unique_seats s \<Longrightarrow> reachable s"
| commit: "reachable s \<Longrightarrow> createOrder True s user batch = (result, s', sent) \<Longrightarrow> reachable s'"

text \<open>
  What the first loop has established after the tickets \<open>done\<close>: the set kept for a
  session (empty when the dictionary has no entry for it) holds exactly the pairs
  requested for that session so far, and \<open>duplicates\<close> lists exactly the seats requested
  at least twice so far.
\<close>

definition seen_for :: "by_session \<Rightarrow> int \<Rightarrow> (int \<times> int) list" where
  "seen_for d k = (case map_of d k of None \<Rightarrow> [] | Some v \<Rightarrow> v)"

definition grouped :: "by_session \<Rightarrow> seat_key list \<Rightarrow> seat_key list \<Rightarrow> bool" where
  "grouped by_session duplicates done =
     ((\<forall>ms r st. ((r, st) \<in> set (seen_for by_session ms)) = ((ms, r, st) \<in> set done)) \<and>
      set duplicates = {k. 2 \<le> count_list done k})"

section \<open>Two requests in flight\<close>

text \<open>
  The create action does its work in two steps: the validation, which holds the
  taken-seat query of the order validator, and the creation of the order. Only the body of
  \<^verbatim>\<open>create\<close> stands inside \<^verbatim>\<open>transaction.atomic()\<close> (line 287), so each step is
  atomic on its own and another request can take a step between the two. A request has
  been received, or validated with the data it will write, or answered.
\<close>

datatype progress =
    Received
  | Validated "ticket_attrs list"
  | Answered "error + order"

record request =
  r_user :: nat
  r_payload :: "ticket_payload list"
  r_progress :: progress

definition advance :: "bool \<Rightarrow> store \<Rightarrow> request \<Rightarrow> request \<times> store" where
  "advance unique_constraint s r =
     (case r_progress r of
        Received \<Rightarrow>
          (case fst (is_valid s (r_payload r)) of
             Inl e \<Rightarrow> (r\<lparr>r_progress := Answered (Inl e)\<rparr>, s)
           | Inr validated_data \<Rightarrow> (r\<lparr>r_progress := Validated validated_data\<rparr>, s))
      | Validated validated_data \<Rightarrow>
          (case OrderCreateSerializer_create unique_constraint s (r_user r) validated_data of
             (result, s', sent) \<Rightarrow> (r\<lparr>r_progress := Answered result\<rparr>, s'))
      | Answered result \<Rightarrow> (r, s))"

text \<open>A schedule names, step by step, the request that moves next.\<close>

fun run_schedule ::
  "bool \<Rightarrow> store \<Rightarrow> request list \<Rightarrow> nat list \<Rightarrow> request list \<times> store"
where
  "run_schedule unique_constraint s requests [] = (requests, s)"
| "run_schedule unique_constraint s requests (i # schedule) =
     (if i < length requests
      then (case advance unique_constraint s (requests ! i) of
              (r', s') \<Rightarrow> run_schedule unique_constraint s' (requests[i := r']) schedule)
      else run_schedule unique_constraint s requests schedule)"

section \<open>Properties of the hall geometry check\<close>

lemma str_int_10: "str_int 10 = ''10''"
  by code_simp

lemma str_int_15: "str_int 15 = ''15''"
  by code_simp

text \<open>
  Claim C5. For every hall and all integers row and seat, the per-ticket validator accepts
  the ticket exactly when \<open>1 \<le> row \<le> rows\<close> and \<open>1 \<le> seat \<le> seats_in_row\<close> of that hall,
  and rejects it with the field errors otherwise; a row out of range gets the message
  naming the range \<open>[1..rows]\<close> of that hall under the key \<open>row\<close>, a seat out of range
  the message naming \<open>[1..seats_in_row]\<close> under the key \<open>seat\<close>.
\<close>

theorem seat_geometry_check:
  "(let hall = cinema_hall (movie_session attrs); r = row attrs; st = seat attrs;
        in_grid = (1 \<le> r \<and> r \<le> rows hall \<and> 1 \<le> st \<and> st \<le> seats_in_row hall)
    in (TicketCreateSerializer_validate attrs = Inr attrs) = in_grid \<and>
       (\<exists>errors. TicketCreateSerializer_validate attrs = Inl (OutOfBounds errors)) = (\<not> in_grid) \<and>
       (r < 1 \<or> rows hall < r \<longrightarrow>
          (\<exists>errors. TicketCreateSerializer_validate attrs = Inl (OutOfBounds errors) \<and>
             map_of errors ''row'' =
               Some (''Row must be within [1..'' @ str_int (rows hall) @ ''] for this cinema hall.''))) \<and>
       (st < 1 \<or> seats_in_row hall < st \<longrightarrow>
          (\<exists>errors. TicketCreateSerializer_validate attrs = Inl (OutOfBounds errors) \<and>
             map_of errors ''seat'' =
               Some (''Seat must be within [1..'' @ str_int (seats_in_row hall) @
                     ''] for this cinema hall.''))))"
  by (auto simp: TicketCreateSerializer_validate_def Let_def row_message_def seat_message_def)

theorem seat_geometry_check_witness:
  "TicketCreateSerializer_validate
      \<lparr>row = 10, seat = 1, movie_session = \<lparr>ms_id = 5, cinema_hall = \<lparr>rows = 10, seats_in_row = 15\<rparr>\<rparr>\<rparr>
     = Inr \<lparr>row = 10, seat = 1, movie_session = \<lparr>ms_id = 5, cinema_hall = \<lparr>rows = 10, seats_in_row = 15\<rparr>\<rparr>\<rparr>
   \<and> (\<exists>errors. TicketCreateSerializer_validate
         \<lparr>row = 11, seat = 1, movie_session = \<lparr>ms_id = 5, cinema_hall = \<lparr>rows = 10, seats_in_row = 15\<rparr>\<rparr>\<rparr>
           = Inl (OutOfBounds errors) \<and>
         map_of errors ''row'' = Some ''Row must be within [1..10] for this cinema hall.'')
   \<and> (\<exists>errors. TicketCreateSerializer_validate
         \<lparr>row = 1, seat = 0, movie_session = \<lparr>ms_id = 5, cinema_hall = \<lparr>rows = 10, seats_in_row = 15\<rparr>\<rparr>\<rparr>
           = Inl (OutOfBounds errors) \<and>
         map_of errors ''seat'' = Some ''Seat must be within [1..15] for this cinema hall.'')"
  using
    seat_geometry_check [of "\<lparr>row = 10, seat = 1, movie_session = \<lparr>ms_id = 5, cinema_hall = \<lparr>rows = 10, seats_in_row = 15\<rparr>\<rparr>\<rparr>"]
    seat_geometry_check [of "\<lparr>row = 11, seat = 1, movie_session = \<lparr>ms_id = 5, cinema_hall = \<lparr>rows = 10, seats_in_row = 15\<rparr>\<rparr>\<rparr>"]
    seat_geometry_check [of "\<lparr>row = 1, seat = 0, movie_session = \<lparr>ms_id = 5, cinema_hall = \<lparr>rows = 10, seats_in_row = 15\<rparr>\<rparr>\<rparr>"]
  by (simp add: Let_def str_int_10 str_int_15)

text \<open>
  Claim C10. When both the row and the seat of a ticket lie outside the hall's grid, the
  per-ticket validator raises one error that carries both field errors, the one for the
  row and the one for the seat, each with its range.
\<close>

theorem both_field_errors:
  "row attrs < 1 \<or> rows (cinema_hall (movie_session attrs)) < row attrs \<Longrightarrow>
   seat attrs < 1 \<or> seats_in_row (cinema_hall (movie_session attrs)) < seat attrs \<Longrightarrow>
   TicketCreateSerializer_validate attrs =
     Inl (OutOfBounds
       [(''row'', ''Row must be within [1..'' @ str_int (rows (cinema_hall (movie_session attrs))) @
                  ''] for this cinema hall.''),
        (''seat'', ''Seat must be within [1..'' @ str_int (seats_in_row (cinema_hall (movie_session attrs))) @
                   ''] for this cinema hall.'')])"
  by (auto simp: TicketCreateSerializer_validate_def Let_def row_message_def seat_message_def)

theorem both_field_errors_witness:
  "TicketCreateSerializer_validate
      \<lparr>row = 11, seat = 0, movie_session = \<lparr>ms_id = 5, cinema_hall = \<lparr>rows = 10, seats_in_row = 15\<rparr>\<rparr>\<rparr>
     = Inl (OutOfBounds [(''row'', ''Row must be within [1..10] for this cinema hall.''),
                         (''seat'', ''Seat must be within [1..15] for this cinema hall.'')])"
  using both_field_errors [of "\<lparr>row = 11, seat = 0, movie_session = \<lparr>ms_id = 5, cinema_hall = \<lparr>rows = 10, seats_in_row = 15\<rparr>\<rparr>\<rparr>"]
  by (simp add: str_int_10 str_int_15)

section \<open>Properties of the availability count\<close>

text \<open>
  Claim C6. For every session and every store, the number of tickets available is
  \<open>max (capacity - sold) 0\<close>, where \<open>sold\<close> is the number of persisted tickets of that
  session; it is never negative, and it is \<open>0\<close> whenever more tickets are persisted than
  the hall has seats.
\<close>

theorem availability_count:
  "(let sold = card {i. i < length (Ticket_objects s) \<and>
                        t_movie_session_id (Ticket_objects s ! i) = ms_id obj};
        hall = cinema_hall obj
    in get_tickets_available s obj = max (capacity hall - int sold) 0 \<and>
       capacity hall = rows hall * seats_in_row hall \<and>
       0 \<le> get_tickets_available s obj \<and>
       (capacity hall < int sold \<longrightarrow> get_tickets_available s obj = 0))"
  by (simp add: get_tickets_available_def Ticket_count_def Let_def length_filter_conv_card capacity_def)

theorem availability_count_witness:
  "get_tickets_available
     \<lparr>Ticket_objects = [\<lparr>t_order_id = 1, t_row = 1, t_seat = 1, t_movie_session_id = 7\<rparr>,
                        \<lparr>t_order_id = 2, t_row = 1, t_seat = 1, t_movie_session_id = 7\<rparr>,
                        \<lparr>t_order_id = 2, t_row = 1, t_seat = 2, t_movie_session_id = 8\<rparr>],
      Order_objects = []\<rparr>
     \<lparr>ms_id = 7, cinema_hall = \<lparr>rows = 1, seats_in_row = 1\<rparr>\<rparr> = 0"
proof -
  let ?s = "\<lparr>Ticket_objects = [\<lparr>t_order_id = 1, t_row = 1, t_seat = 1, t_movie_session_id = 7\<rparr>,
                        \<lparr>t_order_id = 2, t_row = 1, t_seat = 1, t_movie_session_id = 7\<rparr>,
                        \<lparr>t_order_id = 2, t_row = 1, t_seat = 2, t_movie_session_id = 8\<rparr>],
      Order_objects = []\<rparr>"
  let ?obj = "\<lparr>ms_id = 7, cinema_hall = \<lparr>rows = 1, seats_in_row = 1\<rparr>\<rparr>"
  have "card {i. i < length (Ticket_objects ?s) \<and>
                        t_movie_session_id (Ticket_objects ?s ! i) = ms_id ?obj}
          = length [t \<leftarrow> Ticket_objects ?s. t_movie_session_id t = ms_id ?obj]"
    by (rule length_filter_conv_card [symmetric])
  also have "\<dots> = 2"
    by simp
  finally have sold: "card {i. i < length (Ticket_objects ?s) \<and>
                        t_movie_session_id (Ticket_objects ?s ! i) = ms_id ?obj} = 2" .
  show ?thesis
    using availability_count [of ?s ?obj] unfolding Let_def sold
    by (simp add: capacity_def)
qed

section \<open>The empty order\<close>

text \<open>
  Claim C7. An order whose tickets list is empty or missing is rejected by the order
  validator with the \<open>Empty\<close> error, whatever the store holds and without a single query
  sent to it; \<open>createOrder\<close> on the empty batch fails with \<open>Empty\<close>, sends no statement
  and leaves the store as it was.
\<close>

theorem empty_order_rejected:
  "OrderCreateSerializer_validate s None attrs = (Inl Empty, []) \<and>
   OrderCreateSerializer_validate s (Some []) attrs = (Inl Empty, []) \<and>
   createOrder unique_constraint s user [] = (Inl Empty, s, [])"
  by (simp add: OrderCreateSerializer_validate_def createOrder_def is_valid_def tickets_field_def)

section \<open>All or nothing\<close>

lemma bulk_create_Inr:
  "bulk_create unique_constraint table ts = Inr table' \<Longrightarrow> table' = table @ ts"
  by (induction unique_constraint table ts rule: bulk_create.induct) (auto split: if_splits)

lemma bulk_create_Inl:
  "bulk_create unique_constraint table ts = Inl e \<Longrightarrow> e = IntegrityError \<and> unique_constraint"
  by (induction unique_constraint table ts rule: bulk_create.induct) (auto split: if_splits)

lemma bulk_create_distinct:
  "bulk_create True table ts = Inr table' \<Longrightarrow> distinct (map seat_of table) \<Longrightarrow>
   distinct (map seat_of table')"
  by (induction "True" table ts rule: bulk_create.induct) (auto split: if_splits)

lemma check_taken_returns_attrs:
  "check_taken s by_session conflicts attrs = (Inr validated_data, sent) \<Longrightarrow>
   validated_data = attrs"
  by (cases "(s, by_session, conflicts, attrs)" rule: check_taken.cases)
     (auto simp: Let_def split: if_splits)

lemma validate_returns_attrs:
  "OrderCreateSerializer_validate s initial_tickets attrs = (Inr validated_data, sent) \<Longrightarrow>
   validated_data = attrs"
  unfolding OrderCreateSerializer_validate_def Let_def
  by (auto split: sum.splits if_splits prod.splits dest: check_taken_returns_attrs)

lemma fold_max_ge: "(a::nat) \<le> fold max xs a"
  by (induction xs arbitrary: a) (auto intro: order_trans [OF max.cobounded2])

lemma fold_max_mem: "(x::nat) \<in> set xs \<Longrightarrow> x \<le> fold max xs a"
  by (induction xs arbitrary: a) (auto intro: order_trans [OF max.cobounded1 fold_max_ge])

lemma next_order_id_fresh: "next_order_id s \<notin> o_id ` set (Order_objects s)"
proof
  assume "next_order_id s \<in> o_id ` set (Order_objects s)"
  then have "next_order_id s \<in> set (map o_id (Order_objects s))" by simp
  from fold_max_mem [OF this, of 0] show False
    by (simp add: next_order_id_def)
qed

lemma validate_nonempty:
  "OrderCreateSerializer_validate s (Some payload) attrs = (Inr validated_data, sent) \<Longrightarrow>
   payload \<noteq> []"
  by (auto simp: OrderCreateSerializer_validate_def)

lemma run_validation_Inr:
  "TicketCreateSerializer_run_validation ticket = Inr attrs \<Longrightarrow>
   p_fields ticket = Some attrs \<and> TicketCreateSerializer_validate attrs = Inr attrs"
  by (auto simp: TicketCreateSerializer_run_validation_def TicketCreateSerializer_validate_def
        Let_def split: option.splits if_splits)

lemma accepted_tickets:
  "\<not> list_ex isl (map TicketCreateSerializer_run_validation tickets_payload) \<Longrightarrow>
   map p_fields tickets_payload =
     map Some (map projr (map TicketCreateSerializer_run_validation tickets_payload))"
proof (induction tickets_payload)
  case Nil
  then show ?case by simp
next
  case (Cons ticket rest)
  then have "\<not> isl (TicketCreateSerializer_run_validation ticket)" by simp
  then have "TicketCreateSerializer_run_validation ticket =
               Inr (projr (TicketCreateSerializer_run_validation ticket))"
    by (cases "TicketCreateSerializer_run_validation ticket") auto
  from run_validation_Inr [OF this] Cons show ?case by simp
qed

lemma tickets_field_Inr:
  "tickets_field tickets_payload = Inr attrs \<Longrightarrow> map p_fields tickets_payload = map Some attrs"
  using accepted_tickets [of tickets_payload]
  by (auto simp: tickets_field_def Let_def split: if_splits)

lemma tickets_field_payload_of:
  "tickets_field (map payload_of batch) =
     (if list_ex (\<lambda>t. isl (TicketCreateSerializer_validate t)) batch
      then Inl (InvalidTickets (map (\<lambda>t. error_of (TicketCreateSerializer_validate t)) batch))
      else Inr batch)"
proof -
  have run: "TicketCreateSerializer_run_validation (payload_of t) = TicketCreateSerializer_validate t"
    for t
    by (simp add: TicketCreateSerializer_run_validation_def payload_of_def)
  have "map projr (map TicketCreateSerializer_validate batch) = batch"
    if "\<not> list_ex (\<lambda>t. isl (TicketCreateSerializer_validate t)) batch"
    using that
    by (induction batch)
       (auto simp: TicketCreateSerializer_validate_def Let_def split: if_splits)
  then show ?thesis
    by (auto simp: tickets_field_def Let_def run comp_def list_ex_iff)
qed

text \<open>
  Claim C3. Every \<open>createOrder\<close> call is all or nothing. When it fails, with a validation
  error or with the integrity error of the database, the store is the one before the call:
  no order and no ticket is persisted. When it succeeds, the store has gained exactly the
  new order, owned by the caller under a fresh key, and exactly one ticket per request of
  the batch, in the order of the batch, each made of the attributes of its request and
  pointing to that order.
\<close>

theorem order_commit_all_or_nothing:
  "(case createOrder unique_constraint s user tickets_payload of
      (Inl e, s', sent) \<Rightarrow> s' = s
    | (Inr order, s', sent) \<Rightarrow>
        tickets_payload \<noteq> [] \<and>
        Order_objects s' = Order_objects s @ [order] \<and>
        o_user order = user \<and>
        o_id order \<notin> o_id ` set (Order_objects s) \<and>
        (\<exists>batch. map p_fields tickets_payload = map Some batch \<and>
           Ticket_objects s' = Ticket_objects s @ map (new_ticket order) batch))"
proof (cases "is_valid s tickets_payload")
  case (Pair res sent)
  show ?thesis
  proof (cases res)
    case (Inl e)
    with Pair show ?thesis by (simp add: createOrder_def)
  next
    case (Inr validated_data)
    with Pair obtain attrs where tf: "tickets_field tickets_payload = Inr attrs"
      and v: "OrderCreateSerializer_validate s (Some tickets_payload) attrs = (Inr validated_data, sent)"
      by (auto simp: is_valid_def split: sum.splits)
    from validate_returns_attrs [OF v] have vd: "validated_data = attrs" .
    from validate_nonempty [OF v] have ne: "tickets_payload \<noteq> []" .
    from tickets_field_Inr [OF tf] have pf: "map p_fields tickets_payload = map Some attrs" .
    show ?thesis
    proof (cases "bulk_create unique_constraint (Ticket_objects s)
                    (map (new_ticket \<lparr>o_id = next_order_id s, o_user = user\<rparr>) attrs)")
      case (Inl e)
      with Pair Inr vd show ?thesis
        by (simp add: createOrder_def OrderCreateSerializer_create_def Let_def)
    next
      case r: (Inr table)
      from bulk_create_Inr [OF r] Pair Inr vd ne pf r next_order_id_fresh [of s] show ?thesis
        by (auto simp: createOrder_def OrderCreateSerializer_create_def Let_def)
    qed
  qed
qed

theorem order_commit_all_or_nothing_witness:
  "(let hall = \<lparr>rows = 10, seats_in_row = 15\<rparr>;
        s = \<lparr>Ticket_objects = [], Order_objects = []\<rparr>;
        batch = [\<lparr>row = 1, seat = 1, movie_session = \<lparr>ms_id = 5, cinema_hall = hall\<rparr>\<rparr>,
                 \<lparr>row = 1, seat = 2, movie_session = \<lparr>ms_id = 5, cinema_hall = hall\<rparr>\<rparr>];
        again = [\<lparr>row = 1, seat = 2, movie_session = \<lparr>ms_id = 5, cinema_hall = hall\<rparr>\<rparr>];
        order = \<lparr>o_id = 1, o_user = 3\<rparr>;
        s' = \<lparr>Ticket_objects = [\<lparr>t_order_id = 1, t_row = 1, t_seat = 1, t_movie_session_id = 5\<rparr>,
                                \<lparr>t_order_id = 1, t_row = 1, t_seat = 2, t_movie_session_id = 5\<rparr>],
              Order_objects = [order]\<rparr>
    in fst (createOrder True s 3 (map payload_of batch)) = Inr order \<and>
       fst (snd (createOrder True s 3 (map payload_of batch))) = s' \<and>
       fst (createOrder True s' 4 (map payload_of again)) = Inl (Taken [(5, 1, 2)]) \<and>
       fst (snd (createOrder True s' 4 (map payload_of again))) = s')"
proof -
  let ?hall = "\<lparr>rows = 10, seats_in_row = 15\<rparr>"
  let ?s = "\<lparr>Ticket_objects = [], Order_objects = []\<rparr>"
  let ?batch = "[\<lparr>row = 1, seat = 1, movie_session = \<lparr>ms_id = 5, cinema_hall = ?hall\<rparr>\<rparr>,
                 \<lparr>row = 1, seat = 2, movie_session = \<lparr>ms_id = 5, cinema_hall = ?hall\<rparr>\<rparr>]"
  let ?again = "[\<lparr>row = 1, seat = 2, movie_session = \<lparr>ms_id = 5, cinema_hall = ?hall\<rparr>\<rparr>]"
  let ?order = "\<lparr>o_id = 1, o_user = 3\<rparr>"
  let ?s' = "\<lparr>Ticket_objects = [\<lparr>t_order_id = 1, t_row = 1, t_seat = 1, t_movie_session_id = 5\<rparr>,
                                \<lparr>t_order_id = 1, t_row = 1, t_seat = 2, t_movie_session_id = 5\<rparr>],
              Order_objects = [?order]\<rparr>"
  have ok: "fst (createOrder True ?s 3 (map payload_of ?batch)) = Inr ?order"
    by code_simp
  have taken: "fst (createOrder True ?s' 4 (map payload_of ?again)) = Inl (Taken [(5, 1, 2)])"
    by code_simp
  from ok order_commit_all_or_nothing [where unique_constraint = True and s = ?s and user = 3
      and tickets_payload = "map payload_of ?batch"]
  have 1: "fst (snd (createOrder True ?s 3 (map payload_of ?batch))) = ?s'"
    by (cases "createOrder True ?s 3 (map payload_of ?batch)")
       (auto simp: new_ticket_def payload_of_def)
  from taken order_commit_all_or_nothing [where unique_constraint = True and s = ?s' and user = 4
      and tickets_payload = "map payload_of ?again"]
  have 2: "fst (snd (createOrder True ?s' 4 (map payload_of ?again))) = ?s'"
    by (cases "createOrder True ?s' 4 (map payload_of ?again)") auto
  from ok taken 1 2 show ?thesis
    unfolding Let_def by simp
qed

section \<open>Uniqueness of sold seats\<close>

lemma createOrder_unique_seats:
  assumes "unique_seats s" and "createOrder True s user tickets_payload = (result, s', sent)"
  shows "unique_seats s'"
proof (cases "is_valid s tickets_payload")
  case (Pair res q)
  show ?thesis
  proof (cases res)
    case (Inl e)
    with Pair assms show ?thesis by (simp add: createOrder_def)
  next
    case (Inr validated_data)
    show ?thesis
    proof (cases "bulk_create True (Ticket_objects s)
                    (map (new_ticket \<lparr>o_id = next_order_id s, o_user = user\<rparr>) validated_data)")
      case (Inl e)
      with Pair Inr assms show ?thesis
        by (auto simp: createOrder_def OrderCreateSerializer_create_def Let_def)
    next
      case r: (Inr table)
      from assms(1) bulk_create_distinct [OF r] have "distinct (map seat_of table)"
        by (simp add: unique_seats_def)
      with Pair Inr r assms(2) show ?thesis
        by (auto simp: createOrder_def OrderCreateSerializer_create_def Let_def unique_seats_def)
    qed
  qed
qed

lemma reachable_unique_seats: "reachable s \<Longrightarrow> unique_seats s"
  by (induction rule: reachable.induct) (auto intro: createOrder_unique_seats)

text \<open>
  Claim C1. In every reachable persisted state, that is every state produced by a
  sequence of \<open>createOrder\<close> commits from a store without a doubly sold seat, no two
  persisted tickets share the same session, row and seat; and every further
  \<open>createOrder\<close> call leaves a store with the same property. The Tickets table carries
  the uniqueness constraint that the spec gives it.
\<close>

theorem seat_uniqueness_invariant:
  "reachable s \<Longrightarrow>
     (\<forall>i j. i < j \<and> j < length (Ticket_objects s) \<longrightarrow>
        seat_of (Ticket_objects s ! i) \<noteq> seat_of (Ticket_objects s ! j)) \<and>
     (\<forall>user batch. unique_seats (fst (snd (createOrder True s user batch))))"
proof
  assume r: "reachable s"
  then have "distinct (map seat_of (Ticket_objects s))"
    using reachable_unique_seats by (simp add: unique_seats_def)
  then show "\<forall>i j. i < j \<and> j < length (Ticket_objects s) \<longrightarrow>
        seat_of (Ticket_objects s ! i) \<noteq> seat_of (Ticket_objects s ! j)"
    by (auto simp: distinct_conv_nth)
next
  assume r: "reachable s"
  show "\<forall>user batch. unique_seats (fst (snd (createOrder True s user batch)))"
  proof (intro allI)
    fix user batch
    obtain result s' sent where c: "createOrder True s user batch = (result, s', sent)"
      by (cases "createOrder True s user batch") auto
    from createOrder_unique_seats [OF reachable_unique_seats [OF r] c] c
    show "unique_seats (fst (snd (createOrder True s user batch)))" by simp
  qed
qed

theorem seat_uniqueness_invariant_witness:
  "(let hall = \<lparr>rows = 10, seats_in_row = 15\<rparr>;
        s' = \<lparr>Ticket_objects = [\<lparr>t_order_id = 1, t_row = 1, t_seat = 1, t_movie_session_id = 5\<rparr>,
                                \<lparr>t_order_id = 1, t_row = 1, t_seat = 2, t_movie_session_id = 5\<rparr>],
              Order_objects = [\<lparr>o_id = 1, o_user = 3\<rparr>]\<rparr>
    in reachable s' \<and>
       seat_of (Ticket_objects s' ! 0) \<noteq> seat_of (Ticket_objects s' ! 1) \<and>
       unique_seats (fst (snd (createOrder True s' 4
          (map payload_of [\<lparr>row = 1, seat = 2, movie_session = \<lparr>ms_id = 5, cinema_hall = hall\<rparr>\<rparr>])))))"
proof -
  let ?hall = "\<lparr>rows = 10, seats_in_row = 15\<rparr>"
  let ?s = "\<lparr>Ticket_objects = [], Order_objects = []\<rparr>"
  let ?batch = "[\<lparr>row = 1, seat = 1, movie_session = \<lparr>ms_id = 5, cinema_hall = ?hall\<rparr>\<rparr>,
                 \<lparr>row = 1, seat = 2, movie_session = \<lparr>ms_id = 5, cinema_hall = ?hall\<rparr>\<rparr>]"
  let ?s' = "\<lparr>Ticket_objects = [\<lparr>t_order_id = 1, t_row = 1, t_seat = 1, t_movie_session_id = 5\<rparr>,
                                \<lparr>t_order_id = 1, t_row = 1, t_seat = 2, t_movie_session_id = 5\<rparr>],
              Order_objects = [\<lparr>o_id = 1, o_user = 3\<rparr>]\<rparr>"
  have "unique_seats ?s" by (simp add: unique_seats_def)
  then have r0: "reachable ?s" by (rule reachable.initial)
  have "createOrder True ?s 3 (map payload_of ?batch) =
          (Inr \<lparr>o_id = 1, o_user = 3\<rparr>, ?s',
           [Select_tickets 5 [1, 1], Insert_order 3, Insert_tickets (Ticket_objects ?s')])"
    by code_simp
  with r0 have r: "reachable ?s'" by (rule reachable.commit)
  from seat_uniqueness_invariant [OF r] r show ?thesis
    unfolding Let_def by force
qed

section \<open>Duplicates within a batch\<close>

lemma snd_setdefault: "snd (setdefault d k) = seen_for d k"
  by (simp add: setdefault_def seen_for_def split: option.splits)

lemma seen_for_setdefault: "seen_for (fst (setdefault d k)) k' = seen_for d k'"
  by (auto simp: setdefault_def seen_for_def map_add_def split: option.splits)

lemma seen_for_update: "seen_for (AList.update k v d) k' = (if k' = k then v else seen_for d k')"
  by (simp add: seen_for_def update_conv')

lemma setdefault_nonempty: "fst (setdefault d k) \<noteq> []"
  by (cases d) (auto simp: setdefault_def split: option.splits)

lemma hd_setdefault: "fst (hd (fst (setdefault d k))) = (if d = [] then k else fst (hd d))"
  by (cases d) (auto simp: setdefault_def split: option.splits)

lemma hd_update: "d \<noteq> [] \<Longrightarrow> fst (hd (AList.update k v d)) = fst (hd d)"
  by (cases d) auto

lemma seen_for_hd: "d \<noteq> [] \<Longrightarrow> seen_for d (fst (hd d)) = snd (hd d)"
  by (cases d) (auto simp: seen_for_def)

lemma int_triple_payload_of: "int_triple (payload_of t) = Some (requested_seat t)"
  by (simp add: int_triple_def payload_of_def requested_seat_def)

lemma collect_step:
  "int_triple ticket = Some (ms, r, st) \<Longrightarrow>
   collect (ticket # rest) by_session duplicates =
     (if (r, st) \<in> set (seen_for by_session ms)
      then collect rest (fst (setdefault by_session ms)) (duplicates @ [(ms, r, st)])
      else collect rest
             (AList.update ms (seen_for by_session ms @ [(r, st)]) (fst (setdefault by_session ms)))
             duplicates)"
  by (auto simp: int_triple_def Let_def snd_setdefault [symmetric]
           split: prod.splits option.splits)

lemma collect_malformed:
  "ticket \<in> set tickets_payload \<Longrightarrow> int_triple ticket = None \<Longrightarrow>
   collect tickets_payload by_session duplicates = Inl Malformed"
proof (induction tickets_payload arbitrary: by_session duplicates)
  case Nil
  then show ?case by simp
next
  case (Cons first rest)
  show ?case
  proof (cases "int_triple first")
    case None
    then show ?thesis
      by (auto simp: int_triple_def split: option.splits)
  next
    case (Some k)
    with Cons.prems have "ticket \<in> set rest" by auto
    from Cons.IH [OF this Cons.prems(2)] Some show ?thesis
      by (cases k) (simp add: collect_step del: collect.simps)
  qed
qed

lemma grouped_step_dup:
  assumes "grouped d ds done" and "(r, st) \<in> set (seen_for d ms)"
  shows "grouped (fst (setdefault d ms)) (ds @ [(ms, r, st)]) (done @ [(ms, r, st)])"
proof -
  from assms have m: "(ms, r, st) \<in> set done" by (simp add: grouped_def)
  then have "1 \<le> count_list done (ms, r, st)"
    using count_list_0_iff [of "done" "(ms, r, st)"] by simp
  with assms(1) m show ?thesis
    by (auto simp: grouped_def seen_for_setdefault)
qed

lemma grouped_step_new:
  assumes "grouped d ds done" and "(r, st) \<notin> set (seen_for d ms)"
  shows "grouped (AList.update ms (seen_for d ms @ [(r, st)]) (fst (setdefault d ms))) ds
           (done @ [(ms, r, st)])"
proof -
  from assms have "(ms, r, st) \<notin> set done" by (simp add: grouped_def)
  then have "count_list done (ms, r, st) = 0" by simp
  with assms(1) show ?thesis
    by (auto simp: grouped_def seen_for_update seen_for_setdefault)
qed

lemma collect_grouped:
  "map int_triple tickets_payload = map Some seats \<Longrightarrow> grouped d ds done \<Longrightarrow>
   \<exists>d' ds'. collect tickets_payload d ds = Inr (d', ds') \<and>
            grouped d' ds' (done @ seats) \<and>
            (d \<noteq> [] \<longrightarrow> d' \<noteq> [] \<and> fst (hd d') = fst (hd d)) \<and>
            (d = [] \<and> seats \<noteq> [] \<longrightarrow> d' \<noteq> [] \<and> fst (hd d') = fst (hd seats))"
proof (induction seats arbitrary: tickets_payload d ds "done")
  case Nil
  then show ?case by simp
next
  case (Cons k seats)
  from Cons.prems(1) obtain ticket rest where tp: "tickets_payload = ticket # rest"
    and t: "int_triple ticket = Some k" and rest: "map int_triple rest = map Some seats"
    by (cases tickets_payload) auto
  obtain ms r st where k: "k = (ms, r, st)" by (cases k) auto
  let ?d1 = "fst (setdefault d ms)"
  have app: "done @ k # seats = (done @ [k]) @ seats"
    by simp
  show ?case
  proof (cases "(r, st) \<in> set (seen_for d ms)")
    case True
    from grouped_step_dup [OF Cons.prems(2) True]
    have g: "grouped ?d1 (ds @ [k]) (done @ [k])" by (simp add: k)
    from Cons.IH [OF rest g] obtain d' ds' where
      c: "collect rest ?d1 (ds @ [k]) = Inr (d', ds')"
      and g': "grouped d' ds' ((done @ [k]) @ seats)"
      and h: "d' \<noteq> []" "fst (hd d') = fst (hd ?d1)"
      using setdefault_nonempty by blast
    from True c t have "collect tickets_payload d ds = Inr (d', ds')"
      by (simp add: tp k collect_step del: collect.simps)
    with g' h show ?thesis
      unfolding app by (auto simp: hd_setdefault k)
  next
    case False
    let ?d2 = "AList.update ms (seen_for d ms @ [(r, st)]) ?d1"
    from grouped_step_new [OF Cons.prems(2) False]
    have g: "grouped ?d2 ds (done @ [k])" by (simp add: k)
    have ne: "?d2 \<noteq> []" by simp
    from Cons.IH [OF rest g] ne obtain d' ds' where
      c: "collect rest ?d2 ds = Inr (d', ds')"
      and g': "grouped d' ds' ((done @ [k]) @ seats)"
      and h: "d' \<noteq> []" "fst (hd d') = fst (hd ?d2)"
      by blast
    from False c t have "collect tickets_payload d ds = Inr (d', ds')"
      by (simp add: tp k collect_step del: collect.simps)
    with g' h show ?thesis
      unfolding app by (auto simp: hd_setdefault hd_update setdefault_nonempty k)
  qed
qed

lemma grouped_empty: "grouped [] [] []"
  by (simp add: grouped_def seen_for_def)

lemma collect_batch:
  "map int_triple tickets_payload = map Some seats \<Longrightarrow>
   \<exists>d ds. collect tickets_payload [] [] = Inr (d, ds) \<and> grouped d ds seats \<and>
          (seats \<noteq> [] \<longrightarrow> d \<noteq> [] \<and> fst (hd d) = fst (hd seats))"
  using collect_grouped [OF _ grouped_empty, of tickets_payload seats] by auto

lemma repeated_iff: "(\<exists>k. 2 \<le> count_list xs k) = (\<not> distinct xs)"
proof (induction xs)
  case Nil
  then show ?case by simp
next
  case (Cons x xs)
  show ?case
  proof (cases "x \<in> set xs")
    case True
    then have "count_list xs x \<noteq> 0" by (simp add: count_list_0_iff)
    then have "2 \<le> count_list (x # xs) x" by simp
    with True show ?thesis by auto
  next
    case False
    then have "\<And>k. (2 \<le> count_list (x # xs) k) = (2 \<le> count_list xs k)"
      by auto
    with False Cons show ?thesis by simp
  qed
qed

text \<open>A raw entry that \<^verbatim>\<open>int(...)\<close> does not read makes the order validator raise the
  \<open>Malformed\<close> error, whatever else the payload holds.\<close>

lemma validate_malformed:
  "ticket \<in> set tickets_payload \<Longrightarrow> int_triple ticket = None \<Longrightarrow>
   OrderCreateSerializer_validate s (Some tickets_payload) attrs = (Inl Malformed, [])"
  using collect_malformed [of ticket tickets_payload "[]" "[]"]
  by (auto simp: OrderCreateSerializer_validate_def)

lemma validate_duplicates:
  assumes "map int_triple tickets_payload = map Some seats"
    and "\<exists>k. 2 \<le> count_list seats k"
  shows "\<exists>duplicates.
     OrderCreateSerializer_validate s (Some tickets_payload) attrs
       = (Inl (DuplicateInBatch duplicates), []) \<and>
     set duplicates = {k. 2 \<le> count_list seats k}"
proof -
  from assms(2) have "seats \<noteq> []" by auto
  with assms(1) have ne: "tickets_payload \<noteq> []" by auto
  from collect_batch [OF assms(1)] obtain d ds where
    c: "collect tickets_payload [] [] = Inr (d, ds)"
    and g: "grouped d ds seats" by blast
  from g have ds: "set ds = {k. 2 \<le> count_list seats k}"
    by (simp add: grouped_def)
  with assms(2) have "ds \<noteq> []" by auto
  with c ne have "OrderCreateSerializer_validate s (Some tickets_payload) attrs
       = (Inl (DuplicateInBatch ds), [])"
    by (simp add: OrderCreateSerializer_validate_def)
  with ds show ?thesis by blast
qed

text \<open>
  Claim C8 says that every batch in which a (session, row, seat) occurs more than once is
  rejected with \<open>DuplicateInBatch\<close>. It is not so for a batch whose tickets fail their
  own checks, which run first: two requests for (row 11, seat 0) of session 5, in a hall
  of 10 rows of 15 seats, are rejected with the field errors of the two tickets.
\<close>

theorem duplicate_batch_out_of_grid:
  "createOrder True \<lparr>Ticket_objects = [], Order_objects = []\<rparr> 1
     [payload_of \<lparr>row = 11, seat = 0,
                  movie_session = \<lparr>ms_id = 5, cinema_hall = \<lparr>rows = 10, seats_in_row = 15\<rparr>\<rparr>\<rparr>,
      payload_of \<lparr>row = 11, seat = 0,
                  movie_session = \<lparr>ms_id = 5, cinema_hall = \<lparr>rows = 10, seats_in_row = 15\<rparr>\<rparr>\<rparr>]
   = (Inl (InvalidTickets
        [Some (OutOfBounds [(''row'', ''Row must be within [1..10] for this cinema hall.''),
                            (''seat'', ''Seat must be within [1..15] for this cinema hall.'')]),
         Some (OutOfBounds [(''row'', ''Row must be within [1..10] for this cinema hall.''),
                            (''seat'', ''Seat must be within [1..15] for this cinema hall.'')])]),
      \<lparr>Ticket_objects = [], Order_objects = []\<rparr>, [])"
  by code_simp

text \<open>
  Claim C8, amended. For every batch whose tickets all pass the per-ticket checks (the
  declared fields accept each entry and its seat lies in the grid of its hall) and whose
  entries the order validator reads as integers, if some (session, row, seat) occurs more
  than once among them, \<open>createOrder\<close> rejects the whole batch with the
  \<open>DuplicateInBatch\<close> error, the error lists exactly the seats that occur more than once,
  no ticket and no order is created, and no statement reaches the tables.
\<close>

theorem duplicate_batch_rejected:
  assumes "tickets_field tickets_payload = Inr attrs"
    and "map int_triple tickets_payload = map Some seats"
    and "\<exists>k. 2 \<le> count_list seats k"
  shows "\<exists>duplicates.
     createOrder unique_constraint s user tickets_payload
       = (Inl (DuplicateInBatch duplicates), s, []) \<and>
     set duplicates = {k. 2 \<le> count_list seats k}"
proof -
  from validate_duplicates [OF assms(2,3), of s attrs] obtain duplicates where
    "OrderCreateSerializer_validate s (Some tickets_payload) attrs
       = (Inl (DuplicateInBatch duplicates), [])"
    and "set duplicates = {k. 2 \<le> count_list seats k}"
    by blast
  with assms(1) show ?thesis
    by (auto simp: createOrder_def is_valid_def)
qed

theorem duplicate_batch_rejected_witness:
  "\<exists>duplicates.
      createOrder True \<lparr>Ticket_objects = [], Order_objects = []\<rparr> 1
        (map payload_of
          [\<lparr>row = 2, seat = 3, movie_session = \<lparr>ms_id = 5, cinema_hall = \<lparr>rows = 10, seats_in_row = 15\<rparr>\<rparr>\<rparr>,
           \<lparr>row = 2, seat = 4, movie_session = \<lparr>ms_id = 5, cinema_hall = \<lparr>rows = 10, seats_in_row = 15\<rparr>\<rparr>\<rparr>,
           \<lparr>row = 2, seat = 3, movie_session = \<lparr>ms_id = 5, cinema_hall = \<lparr>rows = 10, seats_in_row = 15\<rparr>\<rparr>\<rparr>])
        = (Inl (DuplicateInBatch duplicates), \<lparr>Ticket_objects = [], Order_objects = []\<rparr>, []) \<and>
      set duplicates = {(5, 2, 3)}"
proof -
  let ?batch = "[\<lparr>row = 2, seat = 3, movie_session = \<lparr>ms_id = 5, cinema_hall = \<lparr>rows = 10, seats_in_row = 15\<rparr>\<rparr>\<rparr>,
         \<lparr>row = 2, seat = 4, movie_session = \<lparr>ms_id = 5, cinema_hall = \<lparr>rows = 10, seats_in_row = 15\<rparr>\<rparr>\<rparr>,
         \<lparr>row = 2, seat = 3, movie_session = \<lparr>ms_id = 5, cinema_hall = \<lparr>rows = 10, seats_in_row = 15\<rparr>\<rparr>\<rparr>]"
  let ?seats = "[(5, 2, 3), (5, 2, 4), (5, 2, 3)] :: seat_key list"
  have accepted: "tickets_field (map payload_of ?batch) = Inr ?batch"
    by code_simp
  have seats: "map int_triple (map payload_of ?batch) = map Some ?seats"
    by (simp add: int_triple_payload_of requested_seat_def)
  have twice: "\<exists>k. 2 \<le> count_list ?seats k"
    by (rule exI [of _ "(5, 2, 3)"]) simp
  have "{k. 2 \<le> count_list ?seats k} = {(5, 2, 3)}"
    by auto
  with duplicate_batch_rejected [OF accepted seats twice,
      where unique_constraint = True and s = "\<lparr>Ticket_objects = [], Order_objects = []\<rparr>" and user = 1]
  show ?thesis by simp
qed

section \<open>The taken-seat check\<close>

text \<open>
  What the second loop does compare: for a payload without repeated seats, the validator
  sends one query, for the session of the first ticket, and reports exactly the requested
  seats of that session that are already sold. The seats requested for any other session
  are not looked up.
\<close>

lemma Ticket_filter_mem:
  "fst pair \<in> set rs \<Longrightarrow>
   (pair \<in> set (Ticket_filter s ms rs)) = ((ms, pair) \<in> seat_of ` set (Ticket_objects s))"
  by (cases pair) (auto simp: Ticket_filter_def seat_of_def image_iff)

lemma check_taken_first_group:
  "\<exists>conflicts.
     check_taken s ((ms, requested) # later) [] attrs =
       (if conflicts = [] then Inr attrs else Inl (Taken conflicts),
        [Select_tickets ms (map fst requested)]) \<and>
     set conflicts = {k. fst k = ms \<and> snd k \<in> set requested \<and> k \<in> seat_of ` set (Ticket_objects s)}"
proof -
  let ?existing = "Ticket_filter s ms (map fst requested)"
  let ?cs = "map (\<lambda>pair. (ms, fst pair, snd pair)) [pair \<leftarrow> requested. pair \<in> set ?existing]"
  have ex: "(pair \<in> set ?existing) = ((ms, pair) \<in> seat_of ` set (Ticket_objects s))"
    if "pair \<in> set requested" for pair
    using that by (intro Ticket_filter_mem) simp
  have "set ?cs = {k. fst k = ms \<and> snd k \<in> set requested \<and> k \<in> seat_of ` set (Ticket_objects s)}"
  proof (intro set_eqI iffI)
    fix k
    assume "k \<in> set ?cs"
    then obtain pair where p: "pair \<in> set requested" "pair \<in> set ?existing" "k = (ms, pair)"
      by auto
    with ex [of pair] show "k \<in> {k. fst k = ms \<and> snd k \<in> set requested \<and>
                                  k \<in> seat_of ` set (Ticket_objects s)}"
      by simp
  next
    fix k
    assume "k \<in> {k. fst k = ms \<and> snd k \<in> set requested \<and>
                     k \<in> seat_of ` set (Ticket_objects s)}"
    then have k: "k = (ms, snd k)" "snd k \<in> set requested"
      "(ms, snd k) \<in> seat_of ` set (Ticket_objects s)"
      by (cases k; simp)+
    with ex [of "snd k"] have "snd k \<in> set [pair \<leftarrow> requested. pair \<in> set ?existing]"
      by simp
    then have "(\<lambda>pair. (ms, fst pair, snd pair)) (snd k) \<in> set ?cs"
      unfolding set_map by (rule imageI)
    with k(1) show "k \<in> set ?cs"
      by simp
  qed
  moreover have "check_taken s ((ms, requested) # later) [] attrs =
       (if ?cs = [] then Inr attrs else Inl (Taken ?cs), [Select_tickets ms (map fst requested)])"
    by (simp add: Let_def)
  ultimately show ?thesis by blast
qed

lemma validate_checks_first_group:
  assumes "map int_triple tickets_payload = map Some seats"
    and "seats \<noteq> []" and "distinct seats"
  shows "\<exists>conflicts sent.
     OrderCreateSerializer_validate s (Some tickets_payload) attrs =
       (if conflicts = [] then Inr attrs else Inl (Taken conflicts), sent) \<and>
     set conflicts = {k \<in> set seats. fst k = fst (hd seats) \<and>
                                     k \<in> seat_of ` set (Ticket_objects s)}"
proof -
  from assms(1,2) have pne: "tickets_payload \<noteq> []" by auto
  from collect_batch [OF assms(1)] assms(2) obtain d ds where
    c: "collect tickets_payload [] [] = Inr (d, ds)"
    and g: "grouped d ds seats"
    and ne: "d \<noteq> []" and h: "fst (hd d) = fst (hd seats)"
    by blast
  from assms(3) repeated_iff [of seats]
  have "{k. 2 \<le> count_list seats k} = {}"
    by blast
  with g have ds: "ds = []"
    by (simp add: grouped_def)
  from ne obtain ms requested later where d: "d = (ms, requested) # later"
    by (cases d) auto
  with h have ms: "ms = fst (hd seats)" by simp
  from seen_for_hd [OF ne] d have "seen_for d ms = requested" by simp
  with g have req: "\<And>pair. (pair \<in> set requested) = ((ms, pair) \<in> set seats)"
    by (auto simp: grouped_def)
  from check_taken_first_group [of s ms requested later attrs] obtain conflicts where
    ct: "check_taken s ((ms, requested) # later) [] attrs =
           (if conflicts = [] then Inr attrs else Inl (Taken conflicts),
            [Select_tickets ms (map fst requested)])"
    and cs: "set conflicts =
           {k. fst k = ms \<and> snd k \<in> set requested \<and> k \<in> seat_of ` set (Ticket_objects s)}"
    by blast
  have "(fst k = ms \<and> snd k \<in> set requested) = (k \<in> set seats \<and> fst k = ms)" for k
    using req [of "snd k"] by (cases k) auto
  with cs have "set conflicts = {k \<in> set seats.
                       fst k = ms \<and> k \<in> seat_of ` set (Ticket_objects s)}"
    by blast
  then have "set conflicts = {k \<in> set seats. fst k = fst (hd seats) \<and>
                                     k \<in> seat_of ` set (Ticket_objects s)}"
    unfolding ms .
  moreover from c ds d ct pne
  have "OrderCreateSerializer_validate s (Some tickets_payload) attrs =
       (if conflicts = [] then Inr attrs else Inl (Taken conflicts),
        [Select_tickets ms (map fst requested)])"
    by (simp add: OrderCreateSerializer_validate_def)
  ultimately show ?thesis by blast
qed

text \<open>On a payload that it reads as integers the validator never falls off its loop.\<close>

lemma validate_never_returns_None:
  assumes "map int_triple tickets_payload = map Some seats"
  shows "fst (OrderCreateSerializer_validate s (Some tickets_payload) attrs) \<noteq> Inl ReturnedNone"
proof (cases "tickets_payload = []")
  case True
  then show ?thesis by (simp add: OrderCreateSerializer_validate_def)
next
  case False
  with assms have "seats \<noteq> []" by auto
  with collect_batch [OF assms] obtain d ds where
    c: "collect tickets_payload [] [] = Inr (d, ds)" and ne: "d \<noteq> []"
    by blast
  from ne obtain ms requested later where d: "d = (ms, requested) # later"
    by (cases d) auto
  from False c d show ?thesis
    by (simp add: OrderCreateSerializer_validate_def Let_def)
qed

text \<open>
  Claim C2 asks that a conflict in any session group, also one after the first, is
  rejected with \<open>Taken\<close> listing the conflicts of all groups. The validator behaves
  otherwise. Seat (row 1, seat 1) of session 2 is sold; the batch asks for (1, 1) in
  session 1 and (1, 1) in session 2. The validator returns the attributes after its one
  query for session 1, so \<open>createOrder\<close> goes on to the insert: with the table's
  uniqueness constraint the call ends in the integrity error of the database, without it
  the sold seat is persisted a second time. When seat (1, 1) of session 1 is sold as
  well, the \<open>Taken\<close> error lists that seat alone.
\<close>

theorem later_group_conflict_accepted:
  "(let hall = \<lparr>rows = 10, seats_in_row = 15\<rparr>;
        sold = \<lparr>t_order_id = 1, t_row = 1, t_seat = 1, t_movie_session_id = 2\<rparr>;
        s = \<lparr>Ticket_objects = [sold], Order_objects = [\<lparr>o_id = 1, o_user = 1\<rparr>]\<rparr>;
        batch = [\<lparr>row = 1, seat = 1, movie_session = \<lparr>ms_id = 1, cinema_hall = hall\<rparr>\<rparr>,
                 \<lparr>row = 1, seat = 1, movie_session = \<lparr>ms_id = 2, cinema_hall = hall\<rparr>\<rparr>];
        new_rows = [\<lparr>t_order_id = 2, t_row = 1, t_seat = 1, t_movie_session_id = 1\<rparr>,
                    \<lparr>t_order_id = 2, t_row = 1, t_seat = 1, t_movie_session_id = 2\<rparr>];
        sent = [Select_tickets 1 [1], Insert_order 2, Insert_tickets new_rows]
    in OrderCreateSerializer_validate s (Some (map payload_of batch)) batch
         = (Inr batch, [Select_tickets 1 [1]]) \<and>
       createOrder True s 2 (map payload_of batch) = (Inl IntegrityError, s, sent) \<and>
       createOrder False s 2 (map payload_of batch)
         = (Inr \<lparr>o_id = 2, o_user = 2\<rparr>,
            \<lparr>Ticket_objects = sold # new_rows,
             Order_objects = [\<lparr>o_id = 1, o_user = 1\<rparr>, \<lparr>o_id = 2, o_user = 2\<rparr>]\<rparr>,
            sent) \<and>
       fst (OrderCreateSerializer_validate
              \<lparr>Ticket_objects = [\<lparr>t_order_id = 1, t_row = 1, t_seat = 1, t_movie_session_id = 1\<rparr>, sold],
               Order_objects = [\<lparr>o_id = 1, o_user = 1\<rparr>]\<rparr>
              (Some (map payload_of batch)) batch)
         = Inl (Taken [(1, 1, 1)]))"
  by code_simp

text \<open>
  Claim C9 asks that a request containing a seat held by an earlier order of another
  user fails with \<open>Taken\<close>. Order 1 of user 1 holds (row 4, seat 4) of session 7; user 2
  asks for (1, 1) in session 3 and for (4, 4) in session 7. The call does not fail with
  \<open>Taken\<close>: with the table's uniqueness constraint it ends in the integrity error of the
  database, without it the order is created and the held seat is sold twice.
\<close>

theorem taken_seat_in_later_group:
  "(let hall = \<lparr>rows = 10, seats_in_row = 15\<rparr>;
        held = \<lparr>t_order_id = 1, t_row = 4, t_seat = 4, t_movie_session_id = 7\<rparr>;
        s = \<lparr>Ticket_objects = [held], Order_objects = [\<lparr>o_id = 1, o_user = 1\<rparr>]\<rparr>;
        batch = [\<lparr>row = 1, seat = 1, movie_session = \<lparr>ms_id = 3, cinema_hall = hall\<rparr>\<rparr>,
                 \<lparr>row = 4, seat = 4, movie_session = \<lparr>ms_id = 7, cinema_hall = hall\<rparr>\<rparr>]
    in fst (createOrder True s 2 (map payload_of batch)) = Inl IntegrityError \<and>
       fst (createOrder False s 2 (map payload_of batch)) = Inr \<lparr>o_id = 2, o_user = 2\<rparr> \<and>
       Ticket_objects (fst (snd (createOrder False s 2 (map payload_of batch))))
         = [held,
            \<lparr>t_order_id = 2, t_row = 1, t_seat = 1, t_movie_session_id = 3\<rparr>,
            \<lparr>t_order_id = 2, t_row = 4, t_seat = 4, t_movie_session_id = 7\<rparr>] \<and>
       \<not> unique_seats (fst (snd (createOrder False s 2 (map payload_of batch)))))"
  by code_simp

section \<open>Two requests for the same seat\<close>

text \<open>A request that takes its two steps with no other request in between is a
  \<open>createOrder\<close> call.\<close>

lemma alone_is_createOrder:
  "run_schedule unique_constraint s
     [\<lparr>r_user = user, r_payload = tickets_payload, r_progress = Received\<rparr>] [0, 0]
   = ([\<lparr>r_user = user, r_payload = tickets_payload,
        r_progress = Answered (fst (createOrder unique_constraint s user tickets_payload))\<rparr>],
      fst (snd (createOrder unique_constraint s user tickets_payload)))"
proof (cases "is_valid s tickets_payload")
  case (Pair res sent)
  show ?thesis
  proof (cases res)
    case (Inl e)
    with Pair show ?thesis
      by (simp add: advance_def createOrder_def)
  next
    case (Inr validated_data)
    with Pair show ?thesis
      by (cases "OrderCreateSerializer_create unique_constraint s user validated_data")
         (simp add: advance_def createOrder_def)
  qed
qed

text \<open>
  Claim C4 asks that of two concurrent calls for the same seat exactly one succeeds and
  the other is rejected with \<open>Taken\<close>, because the check and the insert are one atomic
  unit. They are not. Users 1 and 2 both ask for (row 4, seat 4) of session 5 on an empty
  store, and both are validated before either order is created. Without the table's
  uniqueness constraint both calls succeed and the seat is sold twice; with it the second
  call ends in the integrity error of the database, not in \<open>Taken\<close>. Only when the first
  call is answered before the second is validated is the second rejected with \<open>Taken\<close>.
\<close>

theorem concurrent_requests_same_seat:
  "(let hall = \<lparr>rows = 10, seats_in_row = 15\<rparr>;
        wanted = [payload_of \<lparr>row = 4, seat = 4, movie_session = \<lparr>ms_id = 5, cinema_hall = hall\<rparr>\<rparr>];
        a = \<lparr>r_user = 1, r_payload = wanted, r_progress = Received\<rparr>;
        b = \<lparr>r_user = 2, r_payload = wanted, r_progress = Received\<rparr>;
        s = \<lparr>Ticket_objects = [], Order_objects = []\<rparr>;
        order_a = \<lparr>o_id = 1, o_user = 1\<rparr>;
        order_b = \<lparr>o_id = 2, o_user = 2\<rparr>;
        ticket_a = \<lparr>t_order_id = 1, t_row = 4, t_seat = 4, t_movie_session_id = 5\<rparr>;
        ticket_b = \<lparr>t_order_id = 2, t_row = 4, t_seat = 4, t_movie_session_id = 5\<rparr>
    in run_schedule False s [a, b] [0, 1, 0, 1]
         = ([a\<lparr>r_progress := Answered (Inr order_a)\<rparr>, b\<lparr>r_progress := Answered (Inr order_b)\<rparr>],
            \<lparr>Ticket_objects = [ticket_a, ticket_b], Order_objects = [order_a, order_b]\<rparr>) \<and>
       run_schedule True s [a, b] [0, 1, 0, 1]
         = ([a\<lparr>r_progress := Answered (Inr order_a)\<rparr>,
             b\<lparr>r_progress := Answered (Inl IntegrityError)\<rparr>],
            \<lparr>Ticket_objects = [ticket_a], Order_objects = [order_a]\<rparr>) \<and>
       run_schedule True s [a, b] [0, 0, 1, 1]
         = ([a\<lparr>r_progress := Answered (Inr order_a)\<rparr>,
             b\<lparr>r_progress := Answered (Inl (Taken [(5, 4, 4)]))\<rparr>],
            \<lparr>Ticket_objects = [ticket_a], Order_objects = [order_a]\<rparr>))"
  by code_simp

end
